theory Spec2Isabelle
  imports Main
begin

section \<open>Values and errors\<close>

text \<open>
  The rows handled by \<open>reporter.py\<close> are JSON documents delivered by the cloud API.
  Every place where the Python would raise is a value of \<open>error\<close>.
\<close>

datatype json =
    JNull
  | JBool bool
  | JNum int
  | JStr string
  | JArr "json list"
  | JObj "(string \<times> json) list"

datatype error = IndexError | NotSubscriptable | NotIterable | KeyError string

section \<open>The helpers of \<open>util\<close>\<close>

text \<open>
  The operating system as \<open>_setup\<close> sees it: the clock, the directories that exist and
  the paths tested so far. \<open>clock w k\<close> is the day number the clock shows at the
  \<open>k\<close>-th call of \<open>util.get_date\<close>, \<open>fmt\<close> renders a day number as the date
  string, \<open>ticks\<close> counts the calls made, \<open>probed\<close> lists the paths handed to
  \<open>util.is_path\<close> in order.
\<close>

record os =
  clock :: "nat \<Rightarrow> int"
  fmt :: "int \<Rightarrow> string"
  ticks :: nat
  dirs :: "string list"
  probed :: "string list"

text \<open>Modelled from the spec: \<open>util.get_full_path\<close> joins a directory and a name.\<close>

definition get_full_path :: "string \<Rightarrow> string \<Rightarrow> string" where
  "get_full_path a b = a @ ''/'' @ b"

text \<open>
  Modelled from the spec: \<open>util.get_date(day)\<close> is the date string of the day \<open>day\<close>
  days before the present one; each call reads the clock.
\<close>

definition get_date :: "os \<Rightarrow> nat \<Rightarrow> string \<times> os" where
  "get_date w day = (fmt w (clock w (ticks w) - int day), w\<lparr>ticks := Suc (ticks w)\<rparr>)"

text \<open>Modelled from the spec: \<open>util.is_path\<close> tests whether a path exists on disk.\<close>

definition is_path :: "os \<Rightarrow> string \<Rightarrow> bool \<times> os" where
  "is_path w p = (p \<in> set (dirs w), w\<lparr>probed := probed w @ [p]\<rparr>)"

text \<open>
  Modelled from the spec: \<open>util.create_dir\<close> creates a directory; creating one that
  exists already changes nothing.
\<close>

definition create_dir :: "os \<Rightarrow> string \<Rightarrow> os" where
  "create_dir w p = (if p \<in> set (dirs w) then w else w\<lparr>dirs := dirs w @ [p]\<rparr>)"

section \<open>The collaborators: cloud client and database\<close>

text \<open>
  Every call that reaches the cloud client is recorded, with what it answered.
  The remote service is a parameter \<open>api\<close>: given the calls made so far, the resource,
  the attribute and the project, it answers with the data (absent, or a sequence) and the
  warnings of that call.
\<close>

datatype event =
    Construct string
  | Fetch string string "string option" "json list option" "string list"

type_synonym api =
  "event list \<Rightarrow> string \<Rightarrow> string \<Rightarrow> string option \<Rightarrow> json list option \<times> string list"

record config =
  reports_dir :: string
  database_json :: string
  results_dir :: string
  results_log_file :: string
  gcp_attributes :: "(string \<times> string list) list"

text \<open>
  The fields of \<open>Reporter\<close>, the files saved with \<open>util.save_to_json_file\<close>
  (\<open>written\<close>, in order) and the calls made to the cloud client (\<open>calls\<close>, in order).
\<close>

record reporter =
  reports :: string
  previous_reports :: "string option"
  results :: string
  database_path :: string
  warnings :: "string list"
  database :: "string \<Rightarrow> json list"
  written :: "(string \<times> json) list"
  calls :: "event list"

record gcp =
  resource :: string
  gcp_warnings :: "string list"

text \<open>
  Modelled from the spec: \<open>GCPWrapper(config, resource, "v1")\<close> is a fresh client with
  no warnings yet.
\<close>

definition GCPWrapper :: "string \<Rightarrow> reporter \<Rightarrow> gcp \<times> reporter" where
  "GCPWrapper r s =
     (\<lparr>resource = r, gcp_warnings = []\<rparr>, s\<lparr>calls := calls s @ [Construct r]\<rparr>)"

text \<open>
  Modelled from the spec: \<open>gcp.fetch_attribute(attribute, project)\<close> returns the data
  and adds the warnings of the call to the client's own list.
\<close>

definition fetch_attribute ::
  "api \<Rightarrow> gcp \<Rightarrow> string \<Rightarrow> string option \<Rightarrow> reporter
     \<Rightarrow> json list option \<times> gcp \<times> reporter" where
  "fetch_attribute f g a p s =
     (case f (calls s) (resource g) a p of
        (d, ws) \<Rightarrow>
          (d, g\<lparr>gcp_warnings := gcp_warnings g @ ws\<rparr>,
           s\<lparr>calls := calls s @ [Fetch (resource g) a p d ws]\<rparr>))"

text \<open>
  Modelled from the spec: \<open>Database.insert\<close> appends a row to the named table,
  \<open>Database.get_table\<close> returns the rows of a table in insertion order, none for a
  table never written.
\<close>

definition insert_db :: "(string \<Rightarrow> json list) \<Rightarrow> string \<Rightarrow> json \<Rightarrow> (string \<Rightarrow> json list)" where
  "insert_db db t row = db(t := db t @ [row])"

definition get_table :: "(string \<Rightarrow> json list) \<Rightarrow> string \<Rightarrow> json list" where
  "get_table db t = db t"

text \<open>
  Modelled from the spec: \<open>util.get_value(project, "projectId")\<close> reads the
  \<open>projectId\<close> of a project row, a mapping that holds one; a row without a
  \<open>projectId\<close> string is an error.
\<close>

definition project_name_of :: "json \<Rightarrow> error + string" where
  "project_name_of project =
     (case project of
        JObj kvs \<Rightarrow>
          (case map_of kvs ''projectId'' of
             Some (JStr n) \<Rightarrow> Inr n
           | _ \<Rightarrow> Inl (KeyError ''projectId''))
      | _ \<Rightarrow> Inl (KeyError ''projectId''))"

section \<open>\<open>Reporter._setup\<close>\<close>

text \<open>
  The loop \<open>for day in range(1, days_back)\<close>: the path is stored in
  \<open>self.previous_reports\<close> first and tested afterwards; \<open>break\<close> on the first path
  that exists.
\<close>

fun search_previous_reports ::
  "string \<Rightarrow> nat list \<Rightarrow> string option \<Rightarrow> os \<Rightarrow> string option \<times> os" where
  "search_previous_reports rd [] prev w = (prev, w)"
| "search_previous_reports rd (day # days) prev w =
     (case get_date w day of
        (d, w1) \<Rightarrow>
          (case is_path w1 (get_full_path rd d) of
             (found, w2) \<Rightarrow>
               if \<not> found
               then search_previous_reports rd days (Some (get_full_path rd d)) w2
               else (Some (get_full_path rd d), w2)))"

text \<open>\<open>__init__\<close> followed by \<open>_setup\<close>, with \<open>days_back\<close> as a parameter.\<close>

definition Reporter_setup :: "nat \<Rightarrow> config \<Rightarrow> os \<Rightarrow> reporter \<times> os" where
  "Reporter_setup n cfg w =
     (let w1 = create_dir w (reports_dir cfg) in
      case get_date w1 0 of
        (d, w2) \<Rightarrow>
          (let rep = get_full_path (reports_dir cfg) d;
               w3 = create_dir w2 rep
           in case search_previous_reports (reports_dir cfg) [1..<n] None w3 of
                (prev, w4) \<Rightarrow>
                  (let w5 = create_dir w4 (database_json cfg);
                       w6 = create_dir w5 (results_dir cfg)
                   in (\<lparr>reports = rep,
                        previous_reports = prev,
                        results = get_full_path (results_dir cfg) (results_log_file cfg),
                        database_path = database_json cfg,
                        warnings = [],
                        database = (\<lambda>t. []),
                        written = [],
                        calls = []\<rparr>, w6))))"

definition days_back :: nat where
  "days_back = 30"

definition Reporter_init :: "config \<Rightarrow> os \<Rightarrow> reporter \<times> os" where
  "Reporter_init cfg w = Reporter_setup days_back cfg w"

section \<open>Recording one attribute\<close>

text \<open>\<open>attribute_data[0]\<close>.\<close>

definition index0 :: "json list option \<Rightarrow> error + json" where
  "index0 d =
     (case d of
        None \<Rightarrow> Inl NotSubscriptable
      | Some [] \<Rightarrow> Inl IndexError
      | Some (x # xs) \<Rightarrow> Inr x)"

text \<open>The test \<open>if attribute_data:\<close>.\<close>

definition truthy :: "json list option \<Rightarrow> bool" where
  "truthy d = (case d of None \<Rightarrow> False | Some xs \<Rightarrow> xs \<noteq> [])"

definition record_attribute_data_to_db ::
  "reporter \<Rightarrow> string \<Rightarrow> json list option \<Rightarrow> string \<Rightarrow> error + reporter" where
  "record_attribute_data_to_db s attribute_item attribute_data project_name =
     (case index0 attribute_data of
        Inl e \<Rightarrow> Inl e
      | Inr x \<Rightarrow> Inr (s\<lparr>database := insert_db (database s) attribute_item x\<rparr>))"

definition report_file_name :: "string \<Rightarrow> string \<Rightarrow> string" where
  "report_file_name project_name attribute_item =
     project_name @ ''@'' @ attribute_item @ ''.json''"

definition record_attribute_data_reports ::
  "reporter \<Rightarrow> string \<Rightarrow> json list option \<Rightarrow> string \<Rightarrow> error + reporter" where
  "record_attribute_data_reports s attribute_item attribute_data project_name =
     (let output_file = get_full_path (reports s) (report_file_name project_name attribute_item)
      in case index0 attribute_data of
           Inl e \<Rightarrow> Inl e
         | Inr x \<Rightarrow> Inr (s\<lparr>written := written s @ [(output_file, x)]\<rparr>))"

section \<open>\<open>Reporter._fetch_projects\<close>\<close>

definition fetch_projects :: "api \<Rightarrow> reporter \<Rightarrow> error + (nat \<times> reporter)" where
  "fetch_projects f s =
     (case GCPWrapper ''cloudresourcemanager'' s of
        (g, s0) \<Rightarrow>
          (case fetch_attribute f g ''projects'' None s0 of
             (projects, g1, s1) \<Rightarrow>
               (let s2 = (if gcp_warnings g1 \<noteq> []
                          then s1\<lparr>warnings := warnings s1 @ gcp_warnings g1\<rparr> else s1)
                in case projects of
                     None \<Rightarrow> Inl NotIterable
                   | Some ps \<Rightarrow>
                       Inr (length ps,
                            foldl (\<lambda>t project.
                                     t\<lparr>database := insert_db (database t) ''projects'' project\<rparr>)
                                  s2 ps))))"

section \<open>\<open>Reporter._fetch_attributes_for_projects\<close>\<close>

text \<open>The loop over the attributes of one resource, with one client.\<close>

fun fetch_items ::
  "api \<Rightarrow> string \<Rightarrow> string list \<Rightarrow> gcp \<Rightarrow> reporter \<Rightarrow> error + (gcp \<times> reporter)" where
  "fetch_items f project_name [] g s = Inr (g, s)"
| "fetch_items f project_name (attribute_item # rest) g s =
     (case fetch_attribute f g attribute_item (Some project_name) s of
        (attribute_data, g1, s1) \<Rightarrow>
          if truthy attribute_data
          then (case record_attribute_data_reports s1 attribute_item attribute_data project_name of
                  Inl e \<Rightarrow> Inl e
                | Inr s2 \<Rightarrow>
                    (case record_attribute_data_to_db s2 attribute_item attribute_data project_name of
                       Inl e \<Rightarrow> Inl e
                     | Inr s3 \<Rightarrow> fetch_items f project_name rest g1 s3))
          else fetch_items f project_name rest g1 s1)"

text \<open>The loop over \<open>gcp_attributes.items()\<close>, one fresh client for each resource.\<close>

fun fetch_resources ::
  "api \<Rightarrow> string \<Rightarrow> (string \<times> string list) list \<Rightarrow> reporter \<Rightarrow> error + reporter" where
  "fetch_resources f project_name [] s = Inr s"
| "fetch_resources f project_name ((attribute_resource, attribute_item_list) # rest) s =
     (case GCPWrapper attribute_resource s of
        (g, s0) \<Rightarrow>
          (case fetch_items f project_name attribute_item_list g s0 of
             Inl e \<Rightarrow> Inl e
           | Inr (g1, s1) \<Rightarrow>
               fetch_resources f project_name rest
                 (if gcp_warnings g1 \<noteq> []
                  then s1\<lparr>warnings := warnings s1 @ gcp_warnings g1\<rparr> else s1)))"

text \<open>The loop over the rows of the table \<open>projects\<close>.\<close>

fun fetch_for_projects ::
  "api \<Rightarrow> (string \<times> string list) list \<Rightarrow> json list \<Rightarrow> reporter \<Rightarrow> error + reporter" where
  "fetch_for_projects f attrs [] s = Inr s"
| "fetch_for_projects f attrs (project # rest) s =
     (case project_name_of project of
        Inl e \<Rightarrow> Inl e
      | Inr project_name \<Rightarrow>
          (case fetch_resources f project_name attrs s of
             Inl e \<Rightarrow> Inl e
           | Inr s1 \<Rightarrow> fetch_for_projects f attrs rest s1))"

definition fetch_attributes_for_projects ::
  "api \<Rightarrow> config \<Rightarrow> reporter \<Rightarrow> error + reporter" where
  "fetch_attributes_for_projects f cfg s =
     fetch_for_projects f (gcp_attributes cfg) (get_table (database s) ''projects'') s"

section \<open>\<open>Reporter.run\<close>\<close>

text \<open>
  The result holds the number printed as ``projects were retrieved'', the returned pair
  and the reporter after the run.
\<close>

definition run ::
  "api \<Rightarrow> config \<Rightarrow> reporter \<Rightarrow> error + (nat \<times> (string \<times> string option) \<times> reporter)" where
  "run f cfg s =
     (case fetch_projects f s of
        Inl e \<Rightarrow> Inl e
      | Inr (number_projects, s1) \<Rightarrow>
          (case fetch_attributes_for_projects f cfg s1 of
             Inl e \<Rightarrow> Inl e
           | Inr s2 \<Rightarrow> Inr (number_projects, (reports s2, previous_reports s2), s2)))"

section \<open>Reading a report file name back\<close>

text \<open>Python's \<open>name.split(sep)\<close> for a separator of one character.\<close>

fun split_on :: "char \<Rightarrow> string \<Rightarrow> string list" where
  "split_on c [] = [[]]"
| "split_on c (x # xs) =
     (if x = c then [] # split_on c xs
      else (case split_on c xs of
              [] \<Rightarrow> [[x]]
            | w # ws \<Rightarrow> (x # w) # ws))"

section \<open>What a run leaves behind, read off the calls\<close>

text \<open>
  The warnings an answer of the cloud client carried, the report file and the database row
  the reporter derives from it.
\<close>

fun event_warnings :: "event \<Rightarrow> string list" where
  "event_warnings (Construct r) = []"
| "event_warnings (Fetch r a p d ws) = ws"

fun event_files :: "string \<Rightarrow> event \<Rightarrow> (string \<times> json) list" where
  "event_files rep (Fetch r a (Some p) (Some (x # xs)) ws) =
     [(get_full_path rep (report_file_name p a), x)]"
| "event_files rep e = []"

fun event_rows :: "string \<Rightarrow> event \<Rightarrow> json list" where
  "event_rows t (Fetch r a (Some p) (Some (x # xs)) ws) = (if a = t then [x] else [])"
| "event_rows t e = []"

definition grows :: "reporter \<Rightarrow> event list \<Rightarrow> reporter \<Rightarrow> bool" where
  "grows s evs s' \<longleftrightarrow>
     calls s' = calls s @ evs \<and>
     written s' = written s @ concat (map (event_files (reports s)) evs) \<and>
     (\<forall>t. database s' t = database s t @ concat (map (event_rows t) evs)) \<and>
     reports s' = reports s \<and> previous_reports s' = previous_reports s"

text \<open>
  The order of the calls as the specification words it: for every project, in the order
  of the table; for every resource type, in the order of the configuration, one new client
  and then one fetch for each attribute name, in the order of its list.
\<close>

datatype call = Client string | Get string string "string option"

fun call_of :: "event \<Rightarrow> call" where
  "call_of (Construct r) = Client r"
| "call_of (Fetch r a p d ws) = Get r a p"

definition expected_calls :: "(string \<times> string list) list \<Rightarrow> string list \<Rightarrow> call list" where
  "expected_calls attrs names =
     concat (map (\<lambda>project_name.
        concat (map (\<lambda>(r, items). Client r # map (\<lambda>a. Get r a (Some project_name)) items)
                    attrs))
        names)"

section \<open>Inputs used in the examples\<close>

text \<open>A date format for the examples: the day number in unary, with its sign.\<close>

definition unary_date :: "int \<Rightarrow> string" where
  "unary_date d = (if d < 0 then ''-'' else ''+'') @ replicate (nat \<bar>d\<bar>) (CHR ''I'')"

definition example_config :: config where
  "example_config =
     \<lparr>reports_dir = ''r'', database_json = ''db'', results_dir = ''res'',
      results_log_file = ''log'',
      gcp_attributes = [(''compute'', [''firewalls'', ''networks''])]\<rparr>"

text \<open>An operating system whose clock stays on day 40, with the given directories.\<close>

definition example_os :: "string list \<Rightarrow> os" where
  "example_os ds =
     \<lparr>clock = (\<lambda>k. 40), fmt = unary_date, ticks = 0, dirs = ds, probed = []\<rparr>"

text \<open>A cloud without projects.\<close>

definition no_projects :: api where
  "no_projects h r a p = (Some [], [])"

text \<open>A reporter as \<open>__init__\<close> leaves it, before the run.\<close>

definition example_reporter :: reporter where
  "example_reporter =
     \<lparr>reports = ''r/today'', previous_reports = None, results = ''res/log'',
      database_path = ''db'', warnings = [], database = (\<lambda>t. []), written = [],
      calls = []\<rparr>"

text \<open>
  A cloud with one project: the firewalls are refused with a warning, the networks are
  two rows.
\<close>

definition example_api :: api where
  "example_api h r a p =
     (if a = ''projects'' then (Some [JObj [(''projectId'', JStr ''proj-a'')]], [])
      else if a = ''firewalls'' then (None, [''denied''])
      else (Some [JObj [(''name'', JStr ''net1'')], JObj [(''name'', JStr ''net2'')]], []))"


text \<open>A client for the resource \<open>compute\<close> that has reported nothing yet.\<close>

definition compute_client :: gcp where
  "compute_client = \<lparr>resource = ''compute'', gcp_warnings = []\<rparr>"


text \<open>A cloud whose discovery lists the same project twice.\<close>

definition twice_api :: api where
  "twice_api h r a p =
     (if a = ''projects''
      then (Some [JObj [(''projectId'', JStr ''proj-a'')], JObj [(''projectId'', JStr ''proj-a'')]],
            [])
      else (None, []))"

section \<open>The search for the previous reports\<close>

text \<open>
  With a clock that stays on day \<open>t\<close>: when no probed path exists, the loop leaves the
  path it tested last in \<open>self.previous_reports\<close>.
\<close>

lemma search_previous_reports_none_found:
  "clock w = (\<lambda>k. t) \<Longrightarrow>
   \<forall>day \<in> set days. get_full_path rd (fmt w (t - int day)) \<notin> set (dirs w) \<Longrightarrow>
   fst (search_previous_reports rd days prev w) =
     (if days = [] then prev else Some (get_full_path rd (fmt w (t - int (last days)))))"
proof (induction days arbitrary: prev w)
  case Nil
  then show ?case by simp
next
  case (Cons day days)
  let ?w2 = "w\<lparr>ticks := Suc (ticks w),
                probed := probed w @ [get_full_path rd (fmt w (t - int day))]\<rparr>"
  have step: "search_previous_reports rd (day # days) prev w =
      search_previous_reports rd days (Some (get_full_path rd (fmt w (t - int day)))) ?w2"
    using Cons.prems by (simp add: get_date_def is_path_def)
  have "fst (search_previous_reports rd days
               (Some (get_full_path rd (fmt w (t - int day)))) ?w2) =
     (if days = [] then Some (get_full_path rd (fmt w (t - int day)))
      else Some (get_full_path rd (fmt ?w2 (t - int (last days)))))"
    using Cons.prems by (intro Cons.IH) simp_all
  with step show ?case by simp
qed

text \<open>The first probed path that exists ends the loop and is the result.\<close>

lemma search_previous_reports_first_found:
  "clock w = (\<lambda>k. t) \<Longrightarrow>
   \<forall>day \<in> set xs. get_full_path rd (fmt w (t - int day)) \<notin> set (dirs w) \<Longrightarrow>
   get_full_path rd (fmt w (t - int d)) \<in> set (dirs w) \<Longrightarrow>
   fst (search_previous_reports rd (xs @ d # ys) prev w) =
     Some (get_full_path rd (fmt w (t - int d)))"
proof (induction xs arbitrary: prev w)
  case Nil
  then show ?case by (simp add: get_date_def is_path_def)
next
  case (Cons day xs)
  let ?w2 = "w\<lparr>ticks := Suc (ticks w),
                probed := probed w @ [get_full_path rd (fmt w (t - int day))]\<rparr>"
  have step: "search_previous_reports rd ((day # xs) @ d # ys) prev w =
      search_previous_reports rd (xs @ d # ys)
        (Some (get_full_path rd (fmt w (t - int day)))) ?w2"
    using Cons.prems by (simp add: get_date_def is_path_def)
  have "fst (search_previous_reports rd (xs @ d # ys)
               (Some (get_full_path rd (fmt w (t - int day)))) ?w2) =
     Some (get_full_path rd (fmt ?w2 (t - int d)))"
    using Cons.prems by (intro Cons.IH) simp_all
  with step show ?case by simp
qed

text \<open>
  Claim C1. When no earlier report directory exists, the second component of the pair
  returned by \<open>run\<close> should be absent. On a disk without any report directory, with the
  clock on day 40, the run returns as previous directory the path of day 11 (29 days
  back), the last one the loop tested, and that path does not exist after the run.
\<close>

theorem C1_previous_reports_is_last_probed_path:
  "(case run no_projects example_config (fst (Reporter_init example_config (example_os []))) of
      Inl e \<Rightarrow> None
    | Inr (n, pair, s') \<Rightarrow> Some pair)
   = Some (get_full_path ''r'' (unary_date 40), Some (get_full_path ''r'' (unary_date 11)))
   \<and> get_full_path ''r'' (unary_date 11)
       \<notin> set (dirs (snd (Reporter_init example_config (example_os []))))"
  by code_simp

text \<open>
  Claim C2. The search should test the days 1 to \<open>days_back\<close>, the last one included.
  With the clock on day 40 and a report directory for day 10 only (30 days back), the loop
  tests the days 1 to 29 in ascending order, never tests the directory of day 10, and
  leaves the path of day 11 in \<open>self.previous_reports\<close>.
\<close>

theorem C2_day_30_is_never_probed:
  "previous_reports
     (fst (Reporter_init example_config (example_os [get_full_path ''r'' (unary_date 10)])))
   = Some (get_full_path ''r'' (unary_date 11))
   \<and> probed (snd (Reporter_init example_config (example_os [get_full_path ''r'' (unary_date 10)])))
     = map (\<lambda>day. get_full_path ''r'' (unary_date (40 - int day))) [1..<30]
   \<and> get_full_path ''r'' (unary_date 10)
       \<notin> set (probed (snd (Reporter_init example_config
                                (example_os [get_full_path ''r'' (unary_date 10)]))))"
  by code_simp

section \<open>The loops of the run\<close>

lemma grows_refl: "grows s [] s"
  by (simp add: grows_def)

lemma grows_trans: "grows s e1 s1 \<Longrightarrow> grows s1 e2 s2 \<Longrightarrow> grows s (e1 @ e2) s2"
  by (simp add: grows_def)

text \<open>The test \<open>if attribute_data:\<close> passes for a sequence with a first element only.\<close>

lemma truthy_iff: "truthy d \<longleftrightarrow> (\<exists>x xs. d = Some (x # xs))"
  by (cases d) (auto simp: truthy_def neq_Nil_conv)

text \<open>One turn of the loop over the attribute names.\<close>

lemma fetch_items_step_truthy:
  assumes "f (calls s) (resource g) a (Some pn) = (Some (x # xs), ws)"
  shows "fetch_items f pn (a # rest) g s =
         fetch_items f pn rest (g\<lparr>gcp_warnings := gcp_warnings g @ ws\<rparr>)
           (s\<lparr>calls := calls s @ [Fetch (resource g) a (Some pn) (Some (x # xs)) ws],
              written := written s @ [(get_full_path (reports s) (report_file_name pn a), x)],
              database := (database s)(a := database s a @ [x])\<rparr>)"
  using assms
  by (simp add: fetch_attribute_def truthy_def record_attribute_data_reports_def
      record_attribute_data_to_db_def index0_def insert_db_def)

lemma fetch_items_step_falsy:
  assumes "f (calls s) (resource g) a (Some pn) = (d, ws)" and "\<not> truthy d"
  shows "fetch_items f pn (a # rest) g s =
         fetch_items f pn rest (g\<lparr>gcp_warnings := gcp_warnings g @ ws\<rparr>)
           (s\<lparr>calls := calls s @ [Fetch (resource g) a (Some pn) d ws]\<rparr>)"
  using assms by (simp add: fetch_attribute_def)

text \<open>
  The loop over the attribute names always ends without an error; the files and rows it
  adds are those of its calls, the warnings stay with the client.
\<close>

lemma fetch_items_grows:
  "\<exists>g' s' evs. fetch_items f pn items g s = Inr (g', s') \<and> grows s evs s' \<and>
      warnings s' = warnings s \<and> resource g' = resource g \<and>
      gcp_warnings g' = gcp_warnings g @ concat (map event_warnings evs) \<and>
      map call_of evs = map (\<lambda>a. Get (resource g) a (Some pn)) items"
proof (induction items arbitrary: g s)
  case Nil
  show ?case by (simp add: grows_refl)
next
  case (Cons a rest)
  obtain d ws where r: "f (calls s) (resource g) a (Some pn) = (d, ws)"
    by (cases "f (calls s) (resource g) a (Some pn)")
  let ?g1 = "g\<lparr>gcp_warnings := gcp_warnings g @ ws\<rparr>"
  let ?e = "Fetch (resource g) a (Some pn) d ws"
  show ?case
  proof (cases "truthy d")
    case True
    then obtain x xs where d: "d = Some (x # xs)" by (auto simp: truthy_iff)
    let ?s1 = "s\<lparr>calls := calls s @ [?e],
              written := written s @ [(get_full_path (reports s) (report_file_name pn a), x)],
              database := (database s)(a := database s a @ [x])\<rparr>"
    have step: "fetch_items f pn (a # rest) g s = fetch_items f pn rest ?g1 ?s1"
      using fetch_items_step_truthy[of f s g a pn x xs ws rest] r d by simp
    have g1: "grows s [?e] ?s1" by (simp add: grows_def d)
    from Cons.IH[of ?g1 ?s1] obtain g' s' evs where
      ih: "fetch_items f pn rest ?g1 ?s1 = Inr (g', s')" "grows ?s1 evs s'"
        "warnings s' = warnings ?s1" "resource g' = resource ?g1"
        "gcp_warnings g' = gcp_warnings ?g1 @ concat (map event_warnings evs)"
        "map call_of evs = map (\<lambda>a. Get (resource ?g1) a (Some pn)) rest"
      by blast
    have "grows s (?e # evs) s'" using grows_trans[OF g1 ih(2)] by simp
    with step ih show ?thesis
      by (intro exI[of _ g'] exI[of _ s'] exI[of _ "?e # evs"]) simp
  next
    case False
    let ?s1 = "s\<lparr>calls := calls s @ [?e]\<rparr>"
    have step: "fetch_items f pn (a # rest) g s = fetch_items f pn rest ?g1 ?s1"
      using fetch_items_step_falsy[of f s g a pn d ws rest] r False by simp
    have nf: "event_files (reports s) ?e = []" "\<And>t. event_rows t ?e = []"
      using False by (cases d; cases "the d"; simp add: truthy_def)+
    have g1: "grows s [?e] ?s1" by (simp add: grows_def nf)
    from Cons.IH[of ?g1 ?s1] obtain g' s' evs where
      ih: "fetch_items f pn rest ?g1 ?s1 = Inr (g', s')" "grows ?s1 evs s'"
        "warnings s' = warnings ?s1" "resource g' = resource ?g1"
        "gcp_warnings g' = gcp_warnings ?g1 @ concat (map event_warnings evs)"
        "map call_of evs = map (\<lambda>a. Get (resource ?g1) a (Some pn)) rest"
      by blast
    have "grows s (?e # evs) s'" using grows_trans[OF g1 ih(2)] by simp
    with step ih show ?thesis
      by (intro exI[of _ g'] exI[of _ s'] exI[of _ "?e # evs"]) simp
  qed
qed


lemma merge_warnings:
  "(if gcp_warnings g \<noteq> [] then s\<lparr>warnings := warnings s @ gcp_warnings g\<rparr> else s) =
   s\<lparr>warnings := warnings s @ gcp_warnings g\<rparr>"
  by simp

text \<open>The loop over the resource types hands the warnings of each client to the reporter.\<close>

lemma fetch_resources_grows:
  "\<exists>s' evs. fetch_resources f pn attrs s = Inr s' \<and> grows s evs s' \<and>
      warnings s' = warnings s @ concat (map event_warnings evs) \<and>
      map call_of evs =
        concat (map (\<lambda>(r, items). Client r # map (\<lambda>a. Get r a (Some pn)) items) attrs)"
proof (induction attrs arbitrary: s)
  case Nil
  show ?case by (simp add: grows_refl)
next
  case (Cons ri rest)
  obtain r items where ri: "ri = (r, items)" by (cases ri)
  let ?g0 = "\<lparr>resource = r, gcp_warnings = []\<rparr>"
  let ?s0 = "s\<lparr>calls := calls s @ [Construct r]\<rparr>"
  have g0: "grows s [Construct r] ?s0" by (simp add: grows_def)
  from fetch_items_grows[of f pn items ?g0 ?s0] obtain g1 s1 evs1 where
    it: "fetch_items f pn items ?g0 ?s0 = Inr (g1, s1)" "grows ?s0 evs1 s1"
      "warnings s1 = warnings ?s0"
      "gcp_warnings g1 = gcp_warnings ?g0 @ concat (map event_warnings evs1)"
      "map call_of evs1 = map (\<lambda>a. Get (resource ?g0) a (Some pn)) items"
    by blast
  let ?s2 = "s1\<lparr>warnings := warnings s1 @ gcp_warnings g1\<rparr>"
  have step: "fetch_resources f pn (ri # rest) s = fetch_resources f pn rest ?s2"
    using it(1) by (simp add: ri GCPWrapper_def)
  have g2: "grows s (Construct r # evs1) ?s2"
    using grows_trans[OF g0 it(2)] by (simp add: grows_def)
  from Cons.IH[of ?s2] obtain s' evs where
    ih: "fetch_resources f pn rest ?s2 = Inr s'" "grows ?s2 evs s'"
      "warnings s' = warnings ?s2 @ concat (map event_warnings evs)"
      "map call_of evs =
        concat (map (\<lambda>(r, items). Client r # map (\<lambda>a. Get r a (Some pn)) items) rest)"
    by blast
  have "grows s ((Construct r # evs1) @ evs) s'" using grows_trans[OF g2 ih(2)] .
  with step ih it show ?case
    by (intro exI[of _ s'] exI[of _ "(Construct r # evs1) @ evs"]) (simp add: ri)
qed

lemma fetch_for_projects_grows:
  "map project_name_of ps = map Inr names \<Longrightarrow>
   \<exists>s' evs. fetch_for_projects f attrs ps s = Inr s' \<and> grows s evs s' \<and>
      warnings s' = warnings s @ concat (map event_warnings evs) \<and>
      map call_of evs = expected_calls attrs names"
proof (induction ps arbitrary: s names)
  case Nil
  then show ?case by (simp add: grows_refl expected_calls_def)
next
  case (Cons p ps)
  then obtain pn names' where n: "names = pn # names'" "project_name_of p = Inr pn"
    "map project_name_of ps = map Inr names'"
    by (cases names) auto
  from fetch_resources_grows[of f pn attrs s] obtain s1 evs1 where
    r: "fetch_resources f pn attrs s = Inr s1" "grows s evs1 s1"
      "warnings s1 = warnings s @ concat (map event_warnings evs1)"
      "map call_of evs1 =
        concat (map (\<lambda>(r, items). Client r # map (\<lambda>a. Get r a (Some pn)) items) attrs)"
    by blast
  from Cons.IH[OF n(3), of s1] obtain s' evs where
    ih: "fetch_for_projects f attrs ps s1 = Inr s'" "grows s1 evs s'"
      "warnings s' = warnings s1 @ concat (map event_warnings evs)"
      "map call_of evs = expected_calls attrs names'"
    by blast
  have "grows s (evs1 @ evs) s'" using grows_trans[OF r(2) ih(2)] .
  with n r ih show ?case
    by (intro exI[of _ s'] exI[of _ "evs1 @ evs"]) (simp add: expected_calls_def)
qed

lemma fetch_for_projects_names:
  "fetch_for_projects f attrs ps s = Inr s' \<Longrightarrow>
   \<exists>names. map project_name_of ps = map Inr names"
proof (induction ps arbitrary: s)
  case Nil
  then show ?case by simp
next
  case (Cons p ps)
  then obtain pn s1 where p: "project_name_of p = Inr pn"
    "fetch_for_projects f attrs ps s1 = Inr s'"
    by (auto split: sum.splits)
  from Cons.IH[OF p(2)] obtain names where "map project_name_of ps = map Inr names" by blast
  with p(1) have "map project_name_of (p # ps) = map Inr (pn # names)" by simp
  then show ?case by blast
qed

lemma insert_projects:
  "foldl (\<lambda>t project. t\<lparr>database := insert_db (database t) ''projects'' project\<rparr>) s ps =
   s\<lparr>database := (database s)(''projects'' := database s ''projects'' @ ps)\<rparr>"
  by (induction ps arbitrary: s) (simp_all add: insert_db_def)

lemma fetch_projects_Some:
  assumes "f (calls s @ [Construct ''cloudresourcemanager'']) ''cloudresourcemanager''
             ''projects'' None = (Some ps, ws)"
  shows "fetch_projects f s =
     Inr (length ps,
          s\<lparr>calls := calls s @ [Construct ''cloudresourcemanager'',
                                Fetch ''cloudresourcemanager'' ''projects'' None (Some ps) ws],
             warnings := warnings s @ ws,
             database := (database s)(''projects'' := database s ''projects'' @ ps)\<rparr>)"
  using assms
  by (simp add: fetch_projects_def GCPWrapper_def fetch_attribute_def insert_projects)

lemma fetch_projects_None:
  assumes "f (calls s @ [Construct ''cloudresourcemanager'']) ''cloudresourcemanager''
             ''projects'' None = (None, ws)"
  shows "fetch_projects f s = Inl NotIterable"
  using assms
  by (simp add: fetch_projects_def GCPWrapper_def fetch_attribute_def)


text \<open>A run that returns, described by its calls.\<close>

lemma run_Inr:
  assumes "run f cfg s = Inr (n, pair, s')"
  shows "\<exists>ps ws evs names.
     f (calls s @ [Construct ''cloudresourcemanager'']) ''cloudresourcemanager''
       ''projects'' None = (Some ps, ws) \<and>
     n = length ps \<and> pair = (reports s, previous_reports s) \<and>
     calls s' = calls s @ Construct ''cloudresourcemanager''
        # Fetch ''cloudresourcemanager'' ''projects'' None (Some ps) ws # evs \<and>
     warnings s' = warnings s @ ws @ concat (map event_warnings evs) \<and>
     written s' = written s @ concat (map (event_files (reports s)) evs) \<and>
     (\<forall>t. database s' t =
        ((database s)(''projects'' := database s ''projects'' @ ps)) t
          @ concat (map (event_rows t) evs)) \<and>
     map project_name_of (database s ''projects'' @ ps) = map Inr names \<and>
     map call_of evs = expected_calls (gcp_attributes cfg) names"
proof -
  obtain d ws where r: "f (calls s @ [Construct ''cloudresourcemanager''])
      ''cloudresourcemanager'' ''projects'' None = (d, ws)"
    by (cases "f (calls s @ [Construct ''cloudresourcemanager'']) ''cloudresourcemanager''
      ''projects'' None")
  have "d \<noteq> None"
  proof
    assume "d = None"
    then have "fetch_projects f s = Inl NotIterable"
      using fetch_projects_None[of f s ws] r by simp
    then show False using assms by (simp add: run_def)
  qed
  then obtain ps where d: "d = Some ps" by blast
  let ?s1 = "s\<lparr>calls := calls s @ [Construct ''cloudresourcemanager'',
                                Fetch ''cloudresourcemanager'' ''projects'' None (Some ps) ws],
             warnings := warnings s @ ws,
             database := (database s)(''projects'' := database s ''projects'' @ ps)\<rparr>"
  have fp: "fetch_projects f s = Inr (length ps, ?s1)"
    using fetch_projects_Some[of f s ps ws] r d by simp
  let ?rows = "database s ''projects'' @ ps"
  have fa: "fetch_for_projects f (gcp_attributes cfg) ?rows ?s1 = Inr s'"
    and n: "n = length ps" and pair: "pair = (reports s', previous_reports s')"
    using assms fp
    by (auto simp: run_def fetch_attributes_for_projects_def get_table_def split: sum.splits)
  from fetch_for_projects_names[OF fa] obtain names where
    names: "map project_name_of ?rows = map Inr names" by blast
  from fetch_for_projects_grows[OF names, of f "gcp_attributes cfg" ?s1] fa obtain evs where
    g: "grows ?s1 evs s'" "warnings s' = warnings ?s1 @ concat (map event_warnings evs)"
      "map call_of evs = expected_calls (gcp_attributes cfg) names"
    by auto
  show ?thesis
    using r d n pair names g
    by (intro exI[of _ ps] exI[of _ ws] exI[of _ evs] exI[of _ names])
       (simp add: grows_def)
qed

lemma event_files_mem:
  "Fetch r a (Some p) (Some (x # xs)) ws \<in> set evs \<Longrightarrow>
   (get_full_path rep (report_file_name p a), x) \<in> set (concat (map (event_files rep) evs))"
  by (force simp: image_iff)

lemma event_rows_mem:
  "Fetch r a (Some p) (Some (x # xs)) ws \<in> set evs \<Longrightarrow>
   x \<in> set (concat (map (event_rows a) evs))"
  by (force simp: image_iff)

lemma event_warnings_mem:
  "Fetch r a p d ws \<in> set evs \<Longrightarrow> w \<in> set ws \<Longrightarrow>
   w \<in> set (concat (map event_warnings evs))"
  by (force simp: image_iff)

text \<open>
  Claim C3. In a run that returns, let \<open>evs\<close> be the calls it made. A warning that the
  client reported in any fetch is in the reporter's warnings at the end, and the first
  element of any project-scoped fetch that returned data is in the report file of that
  project and attribute and in the table of that attribute, wherever the two fetches stand
  in the run (so also when the data comes after the warning). The warnings at the end are
  the warnings at the start followed by the warnings of every call, in the order of the
  calls: nothing is removed and the list of every client is taken over.
\<close>

theorem C3_warnings_kept_and_data_recorded:
  assumes "run f cfg s = Inr (n, pair, s')"
    and "calls s' = calls s @ evs"
    and "Fetch r1 a1 p1 d1 ws1 \<in> set evs" and "w \<in> set ws1"
    and "Fetch r2 a2 (Some p2) (Some (x # xs)) ws2 \<in> set evs"
  shows "w \<in> set (warnings s') \<and>
         (get_full_path (reports s') (report_file_name p2 a2), x) \<in> set (written s') \<and>
         x \<in> set (get_table (database s') a2) \<and>
         warnings s' = warnings s @ concat (map event_warnings evs)"
proof -
  from run_Inr[OF assms(1)] obtain ps ws evs' names where
    c: "calls s' = calls s @ Construct ''cloudresourcemanager''
        # Fetch ''cloudresourcemanager'' ''projects'' None (Some ps) ws # evs'"
    and w: "warnings s' = warnings s @ ws @ concat (map event_warnings evs')"
    and wr: "written s' = written s @ concat (map (event_files (reports s)) evs')"
    and db: "\<forall>t. database s' t =
        ((database s)(''projects'' := database s ''projects'' @ ps)) t
          @ concat (map (event_rows t) evs')"
    and pr: "pair = (reports s, previous_reports s)"
    and nm: "map project_name_of (database s ''projects'' @ ps) = map Inr names"
    by blast
  have rep: "reports s' = reports s"
    using assms(1) pr by (auto simp: run_def split: sum.splits)
  have evs: "evs = Construct ''cloudresourcemanager''
        # Fetch ''cloudresourcemanager'' ''projects'' None (Some ps) ws # evs'"
    using c assms(2) by simp
  have all: "warnings s' = warnings s @ concat (map event_warnings evs)"
    using w evs by simp
  have "w \<in> set (concat (map event_warnings evs))"
    using event_warnings_mem[OF assms(3,4)] .
  then have 1: "w \<in> set (warnings s')" using all by simp
  have in': "Fetch r2 a2 (Some p2) (Some (x # xs)) ws2 \<in> set evs'"
    using assms(5) evs by auto
  have 2: "(get_full_path (reports s') (report_file_name p2 a2), x) \<in> set (written s')"
    using event_files_mem[OF in', of "reports s"] wr rep by simp
  have "x \<in> set (concat (map (event_rows a2) evs'))"
    using event_rows_mem[OF in'] .
  then have 3: "x \<in> set (get_table (database s') a2)"
    using db by (simp add: get_table_def)
  from 1 2 3 all show ?thesis by blast
qed

theorem C3_warnings_kept_and_data_recorded_witness:
  "(case run example_api example_config example_reporter of
      Inl e \<Rightarrow> False
    | Inr (n, pair, s') \<Rightarrow>
        ''denied'' \<in> set (warnings s') \<and>
        (''r/today/proj-a@networks.json'', JObj [(''name'', JStr ''net1'')]) \<in> set (written s') \<and>
        JObj [(''name'', JStr ''net1'')] \<in> set (get_table (database s') ''networks'') \<and>
        warnings s' = [''denied''])"
proof -
  let ?R = "run example_api example_config example_reporter"
  let ?evs = "[Construct ''cloudresourcemanager'',
     Fetch ''cloudresourcemanager'' ''projects'' None
       (Some [JObj [(''projectId'', JStr ''proj-a'')]]) [],
     Construct ''compute'',
     Fetch ''compute'' ''firewalls'' (Some ''proj-a'') None [''denied''],
     Fetch ''compute'' ''networks'' (Some ''proj-a'')
       (Some [JObj [(''name'', JStr ''net1'')], JObj [(''name'', JStr ''net2'')]]) []]"
  have "\<not> isl ?R" by code_simp
  then obtain n pair s' where R: "?R = Inr (n, pair, s')"
    by (cases ?R) auto
  have "calls (snd (snd (projr ?R))) = ?evs" by code_simp
  then have c: "calls s' = calls example_reporter @ ?evs"
    using R by (simp add: example_reporter_def)
  have "reports (snd (snd (projr ?R))) = ''r/today''" by code_simp
  then have rep: "reports s' = ''r/today''" using R by simp
  have 1: "Fetch ''compute'' ''firewalls'' (Some ''proj-a'') None [''denied''] \<in> set ?evs"
    by simp
  have 2: "Fetch ''compute'' ''networks'' (Some ''proj-a'')
       (Some (JObj [(''name'', JStr ''net1'')] # [JObj [(''name'', JStr ''net2'')]])) []
       \<in> set ?evs"
    by simp
  have 3: "''denied'' \<in> set [''denied'']" by simp
  from C3_warnings_kept_and_data_recorded[OF R c 1 3 2] rep
  have "''denied'' \<in> set (warnings s') \<and>
        (''r/today/proj-a@networks.json'', JObj [(''name'', JStr ''net1'')]) \<in> set (written s') \<and>
        JObj [(''name'', JStr ''net1'')] \<in> set (get_table (database s') ''networks'') \<and>
        warnings s' = [''denied'']"
    by (simp add: get_full_path_def report_file_name_def example_reporter_def)
  then show ?thesis using R by simp
qed

section \<open>Recording the result of one fetch\<close>

text \<open>
  Claim C4. When the result of a fetch passes the test \<open>if attribute_data:\<close>, it is a
  sequence with a first element \<open>x\<close>, and the turn of the loop does exactly this: it
  saves \<open>x\<close> (not the sequence) in the report file of the project and the attribute,
  appends \<open>x\<close> as one row to the table named after the attribute, and goes on with the
  next attribute; the elements after the first reach neither the file nor the table.
\<close>

theorem C4_first_element_to_both_sinks:
  assumes "f (calls s) (resource g) attribute_item (Some project_name) = (attribute_data, ws)"
    and "truthy attribute_data"
  shows "\<exists>x xs. attribute_data = Some (x # xs) \<and>
     record_attribute_data_reports s attribute_item attribute_data project_name =
       Inr (s\<lparr>written := written s @
              [(get_full_path (reports s) (project_name @ ''@'' @ attribute_item @ ''.json''),
                x)]\<rparr>) \<and>
     record_attribute_data_to_db s attribute_item attribute_data project_name =
       Inr (s\<lparr>database :=
              (database s)(attribute_item := get_table (database s) attribute_item @ [x])\<rparr>) \<and>
     fetch_items f project_name (attribute_item # rest) g s =
       fetch_items f project_name rest (g\<lparr>gcp_warnings := gcp_warnings g @ ws\<rparr>)
         (s\<lparr>calls := calls s @
                [Fetch (resource g) attribute_item (Some project_name) attribute_data ws],
            written := written s @
              [(get_full_path (reports s) (project_name @ ''@'' @ attribute_item @ ''.json''),
                x)],
            database :=
              (database s)(attribute_item := get_table (database s) attribute_item @ [x])\<rparr>)"
proof -
  from assms(2) obtain x xs where d: "attribute_data = Some (x # xs)"
    by (auto simp: truthy_iff)
  have 1: "record_attribute_data_reports s attribute_item attribute_data project_name =
       Inr (s\<lparr>written := written s @
              [(get_full_path (reports s) (project_name @ ''@'' @ attribute_item @ ''.json''),
                x)]\<rparr>)"
    by (simp add: d record_attribute_data_reports_def index0_def report_file_name_def)
  have 2: "record_attribute_data_to_db s attribute_item attribute_data project_name =
       Inr (s\<lparr>database :=
              (database s)(attribute_item := get_table (database s) attribute_item @ [x])\<rparr>)"
    by (simp add: d record_attribute_data_to_db_def index0_def insert_db_def get_table_def)
  have 3: "fetch_items f project_name (attribute_item # rest) g s =
       fetch_items f project_name rest (g\<lparr>gcp_warnings := gcp_warnings g @ ws\<rparr>)
         (s\<lparr>calls := calls s @
                [Fetch (resource g) attribute_item (Some project_name) attribute_data ws],
            written := written s @
              [(get_full_path (reports s) (project_name @ ''@'' @ attribute_item @ ''.json''),
                x)],
            database :=
              (database s)(attribute_item := get_table (database s) attribute_item @ [x])\<rparr>)"
    using fetch_items_step_truthy[of f s g attribute_item project_name x xs ws rest] assms(1)
    by (simp add: d report_file_name_def get_table_def)
  from d 1 2 3 show ?thesis by blast
qed

theorem C4_first_element_to_both_sinks_witness:
  "truthy (fst (example_api [] ''compute'' ''networks'' (Some ''proj-a''))) \<and>
   fetch_items example_api ''proj-a'' [''networks''] compute_client example_reporter =
     Inr (compute_client,
          example_reporter
            \<lparr>calls := [Fetch ''compute'' ''networks'' (Some ''proj-a'')
                 (Some [JObj [(''name'', JStr ''net1'')], JObj [(''name'', JStr ''net2'')]]) []],
             written := [(''r/today/proj-a@networks.json'', JObj [(''name'', JStr ''net1'')])],
             database := (\<lambda>t. [])(''networks'' := [JObj [(''name'', JStr ''net1'')]])\<rparr>)"
proof -
  have r: "example_api (calls example_reporter) (resource compute_client) ''networks''
             (Some ''proj-a'')
           = (Some [JObj [(''name'', JStr ''net1'')], JObj [(''name'', JStr ''net2'')]], [])"
    by (simp add: example_api_def)
  have t: "truthy (Some [JObj [(''name'', JStr ''net1'')], JObj [(''name'', JStr ''net2'')]])"
    by (simp add: truthy_def)
  from C4_first_element_to_both_sinks[where f = example_api and s = example_reporter
      and g = compute_client and attribute_item = "''networks''"
      and project_name = "''proj-a''" and ws = "[]" and rest = "[]"
      and attribute_data = "Some [JObj [(''name'', JStr ''net1'')], JObj [(''name'', JStr ''net2'')]]"]
    r t
  show ?thesis
    by (simp add: example_api_def truthy_def example_reporter_def compute_client_def
        get_full_path_def get_table_def)
qed




section \<open>Errors of a run\<close>

lemma project_name_of_error:
  "project_name_of p = Inl e \<Longrightarrow> e = KeyError ''projectId''"
  by (auto simp: project_name_of_def split: json.splits option.splits)

lemma fetch_for_projects_error:
  "fetch_for_projects f attrs ps s = Inl e \<Longrightarrow> e = KeyError ''projectId''"
proof (induction ps arbitrary: s)
  case Nil
  then show ?case by simp
next
  case (Cons p ps)
  show ?case
  proof (cases "project_name_of p")
    case (Inl e')
    with Cons.prems have "e = e'" by simp
    with Inl show ?thesis by (simp add: project_name_of_error)
  next
    case (Inr pn)
    from fetch_resources_grows[of f pn attrs s] obtain s1 where
      "fetch_resources f pn attrs s = Inr s1" by blast
    with Cons.prems Inr have "fetch_for_projects f attrs ps s1 = Inl e" by simp
    then show ?thesis by (rule Cons.IH)
  qed
qed

lemma fetch_projects_error:
  "fetch_projects f s = Inl e \<Longrightarrow> e = NotIterable"
  by (auto simp: fetch_projects_def GCPWrapper_def fetch_attribute_def Let_def
      split: prod.splits option.splits if_splits)

lemma run_error:
  "run f cfg s = Inl e \<Longrightarrow> e = NotIterable \<or> e = KeyError ''projectId''"
  by (auto simp: run_def fetch_attributes_for_projects_def
      split: sum.splits prod.splits
      dest: fetch_projects_error fetch_for_projects_error)

text \<open>
  Claim C10. The test \<open>if attribute_data:\<close> holds exactly when \<open>attribute_data[0]\<close>
  has a value. Both functions that read the first element are called under that test only,
  so the loop over the attribute names, and with it the loop over the resource types,
  ends without an error for every answer of the client, and no run ends with the error of
  an index out of range or of a value without an index.
\<close>

theorem C10_first_element_access_is_guarded:
  "(truthy attribute_data \<longleftrightarrow> (\<exists>x. index0 attribute_data = Inr x)) \<and>
   (\<exists>g' s'. fetch_items f project_name attribute_item_list g s = Inr (g', s')) \<and>
   (\<exists>s'. fetch_resources f project_name attrs s = Inr s') \<and>
   run f cfg s \<noteq> Inl IndexError \<and> run f cfg s \<noteq> Inl NotSubscriptable"
proof -
  have 1: "truthy attribute_data \<longleftrightarrow> (\<exists>x. index0 attribute_data = Inr x)"
    by (auto simp: truthy_def index0_def split: option.splits list.splits)
  have 2: "\<exists>g' s'. fetch_items f project_name attribute_item_list g s = Inr (g', s')"
    using fetch_items_grows[of f project_name attribute_item_list g s] by blast
  have 3: "\<exists>s'. fetch_resources f project_name attrs s = Inr s'"
    using fetch_resources_grows[of f project_name attrs s] by blast
  have 4: "run f cfg s \<noteq> Inl IndexError" "run f cfg s \<noteq> Inl NotSubscriptable"
    using run_error[of f cfg s] by auto
  from 1 2 3 4 show ?thesis by blast
qed

section \<open>Discovery of the projects\<close>

text \<open>The reporter that \<open>__init__\<close> builds has made no call and holds no row.\<close>

lemma Reporter_setup_fresh:
  "calls (fst (Reporter_setup n cfg w)) = [] \<and>
   get_table (database (fst (Reporter_setup n cfg w))) t = [] \<and>
   warnings (fst (Reporter_setup n cfg w)) = [] \<and>
   written (fst (Reporter_setup n cfg w)) = []"
  by (simp add: Reporter_setup_def Let_def get_table_def split: prod.splits)

text \<open>
  Claim C6, amended. When the discovery fetch returns a list \<open>ps\<close> of \<open>N\<close> projects,
  \<open>_fetch_projects\<close> appends one row for each element of \<open>ps\<close>, in order and without
  removing repeated projects, after the rows the table \<open>projects\<close> held before, and
  returns \<open>N\<close>, the number the run prints. The table thus grows by exactly \<open>N\<close> rows;
  its rows are those of \<open>ps\<close> alone when it was empty before, and their project ids are
  as different from one another as those of the discovered list are.
\<close>

theorem C6_discovered_rows_are_appended:
  assumes "f (calls s @ [Construct ''cloudresourcemanager'']) ''cloudresourcemanager''
             ''projects'' None = (Some ps, ws)"
  shows "\<exists>s1. fetch_projects f s = Inr (length ps, s1) \<and>
           get_table (database s1) ''projects'' = get_table (database s) ''projects'' @ ps \<and>
           length (get_table (database s1) ''projects'') =
             length (get_table (database s) ''projects'') + length ps \<and>
           (\<forall>n pair s2. run f cfg s = Inr (n, pair, s2) \<longrightarrow> n = length ps)"
proof -
  let ?s1 = "s\<lparr>calls := calls s @ [Construct ''cloudresourcemanager'',
                                Fetch ''cloudresourcemanager'' ''projects'' None (Some ps) ws],
             warnings := warnings s @ ws,
             database := (database s)(''projects'' := database s ''projects'' @ ps)\<rparr>"
  have fp: "fetch_projects f s = Inr (length ps, ?s1)"
    using fetch_projects_Some[of f s ps ws] assms by simp
  have tab: "get_table (database ?s1) ''projects'' = get_table (database s) ''projects'' @ ps"
    by (simp add: get_table_def)
  have n: "\<forall>n pair s2. run f cfg s = Inr (n, pair, s2) \<longrightarrow> n = length ps"
    using fp by (auto simp: run_def split: sum.splits)
  from fp tab n show ?thesis
    by (intro exI[of _ ?s1]) simp
qed

theorem C6_discovered_rows_are_appended_witness:
  "(\<exists>s1. fetch_projects example_api (fst (Reporter_init example_config (example_os [])))
            = Inr (1, s1) \<and>
          get_table (database s1) ''projects'' = [JObj [(''projectId'', JStr ''proj-a'')]]) \<and>
   fst (projr (run example_api example_config
                 (fst (Reporter_init example_config (example_os []))))) = 1"
proof -
  let ?s = "fst (Reporter_init example_config (example_os []))"
  have fresh: "calls ?s = []" "get_table (database ?s) ''projects'' = []"
    using Reporter_setup_fresh[of days_back example_config "example_os []" "''projects''"]
    by (simp_all add: Reporter_init_def)
  have r: "example_api (calls ?s @ [Construct ''cloudresourcemanager''])
             ''cloudresourcemanager'' ''projects'' None
           = (Some [JObj [(''projectId'', JStr ''proj-a'')]], [])"
    by (simp add: example_api_def)
  have i: "\<not> isl (run example_api example_config ?s)" by code_simp
  then obtain n pair s2 where
    R: "run example_api example_config ?s = Inr (n, pair, s2)"
    by (cases "run example_api example_config ?s") auto
  from C6_discovered_rows_are_appended[where f = example_api and s = ?s
      and ps = "[JObj [(''projectId'', JStr ''proj-a'')]]" and ws = "[]"
      and cfg = example_config] r fresh(2)
  obtain s1 where
    s1: "fetch_projects example_api ?s = Inr (1, s1)"
      "get_table (database s1) ''projects'' = [JObj [(''projectId'', JStr ''proj-a'')]]"
    and n: "\<forall>n pair s2. run example_api example_config ?s = Inr (n, pair, s2) \<longrightarrow> n = 1"
    by auto
  from n R have "n = 1" by blast
  with R s1 show ?thesis by auto
qed

text \<open>
  The claim as it was stated fails: when the discovery lists the project \<open>proj-a\<close>
  twice, \<open>_fetch_projects\<close> on an empty table returns 2 and the table holds two rows
  with the same project id.
\<close>

theorem C6_repeated_project_is_stored_twice:
  "get_table (database example_reporter) ''projects'' = [] \<and>
   fst (projr (fetch_projects twice_api example_reporter)) = 2 \<and>
   get_table (database (snd (projr (fetch_projects twice_api example_reporter)))) ''projects'' =
     [JObj [(''projectId'', JStr ''proj-a'')], JObj [(''projectId'', JStr ''proj-a'')]] \<and>
   \<not> distinct (map project_name_of
       (get_table (database (snd (projr (fetch_projects twice_api example_reporter))))
          ''projects''))"
  by code_simp

section \<open>The name of a report file\<close>

lemma split_on_not_Nil: "split_on c xs \<noteq> []"
  by (induction xs) (auto split: list.splits)

lemma split_on_without_separator: "c \<notin> set xs \<Longrightarrow> split_on c xs = [xs]"
  by (induction xs) auto

lemma split_on_at_separator:
  "c \<notin> set xs \<Longrightarrow> split_on c (xs @ c # ys) = xs # split_on c ys"
  by (induction xs) auto

text \<open>
  Claim C7. The report file of a project and an attribute is saved under the name made of
  the project name, the separator \<open>@\<close>, the attribute name and \<open>.json\<close>, in the
  directory of the current reports. When neither name contains \<open>@\<close>, splitting that
  name at \<open>@\<close> gives back exactly the project name and the attribute name followed by
  \<open>.json\<close>.
\<close>

theorem C7_report_file_name_splits_back:
  assumes "CHR ''@'' \<notin> set project_name" and "CHR ''@'' \<notin> set attribute_item"
  shows "record_attribute_data_reports s attribute_item (Some (x # xs)) project_name =
           Inr (s\<lparr>written := written s @
                  [(get_full_path (reports s) (report_file_name project_name attribute_item),
                    x)]\<rparr>) \<and>
         report_file_name project_name attribute_item =
           project_name @ ''@'' @ attribute_item @ ''.json'' \<and>
         split_on (CHR ''@'') (report_file_name project_name attribute_item) =
           [project_name, attribute_item @ ''.json'']"
proof -
  have "CHR ''@'' \<notin> set (attribute_item @ ''.json'')" using assms(2) by simp
  then have "split_on (CHR ''@'') (attribute_item @ ''.json'') = [attribute_item @ ''.json'']"
    by (rule split_on_without_separator)
  then have "split_on (CHR ''@'') (project_name @ CHR ''@'' # (attribute_item @ ''.json'')) =
      [project_name, attribute_item @ ''.json'']"
    using split_on_at_separator[OF assms(1)] by simp
  then show ?thesis
    by (simp add: report_file_name_def record_attribute_data_reports_def index0_def)
qed

theorem C7_report_file_name_splits_back_witness:
  "CHR ''@'' \<notin> set ''p1'' \<and> CHR ''@'' \<notin> set ''firewalls'' \<and>
   report_file_name ''p1'' ''firewalls'' = ''p1@firewalls.json'' \<and>
   split_on (CHR ''@'') ''p1@firewalls.json'' = [''p1'', ''firewalls.json'']"
proof -
  have a: "CHR ''@'' \<notin> set ''p1''" and b: "CHR ''@'' \<notin> set ''firewalls''" by simp_all
  from C7_report_file_name_splits_back[OF a b, of example_reporter JNull "[]"] a b
  show ?thesis by simp
qed

section \<open>The order of the calls\<close>

text \<open>
  Claim C8. The calls of a run that returns begin with the client for the discovery and
  its fetch of the projects; only then follow the calls of the attribute collection. These
  go through the rows of the table \<open>projects\<close> as it stands after the discovery (the
  rows it held before, then the discovered ones, in insertion order), and for each row
  through the resource types in the order of the configuration, with one new client for
  each resource type and one fetch for each of its attribute names, in the order of the
  list.
\<close>

theorem C8_order_of_calls:
  assumes "run f cfg s = Inr (n, pair, s')"
  shows "\<exists>ps ws evs names.
     calls s' = calls s @ Construct ''cloudresourcemanager''
        # Fetch ''cloudresourcemanager'' ''projects'' None (Some ps) ws # evs \<and>
     map project_name_of (get_table (database s) ''projects'' @ ps) = map Inr names \<and>
     map call_of evs = expected_calls (gcp_attributes cfg) names"
  using run_Inr[OF assms] by (auto simp: get_table_def)

theorem C8_order_of_calls_witness:
  "(case run example_api example_config example_reporter of
      Inl e \<Rightarrow> False
    | Inr (n, pair, s') \<Rightarrow>
        map call_of (drop 2 (calls s')) =
          expected_calls (gcp_attributes example_config) [''proj-a'']) \<and>
   expected_calls (gcp_attributes example_config) [''proj-a''] =
     [Client ''compute'', Get ''compute'' ''firewalls'' (Some ''proj-a''),
      Get ''compute'' ''networks'' (Some ''proj-a'')]"
proof -
  let ?R = "run example_api example_config example_reporter"
  have "\<not> isl ?R" by code_simp
  then obtain n pair s' where R: "?R = Inr (n, pair, s')"
    by (cases ?R) auto
  have "calls (snd (snd (projr ?R))) =
     [Construct ''cloudresourcemanager'',
      Fetch ''cloudresourcemanager'' ''projects'' None
        (Some [JObj [(''projectId'', JStr ''proj-a'')]]) [],
      Construct ''compute'',
      Fetch ''compute'' ''firewalls'' (Some ''proj-a'') None [''denied''],
      Fetch ''compute'' ''networks'' (Some ''proj-a'')
        (Some [JObj [(''name'', JStr ''net1'')], JObj [(''name'', JStr ''net2'')]]) []]"
    by code_simp
  then have c: "calls s' =
     [Construct ''cloudresourcemanager'',
      Fetch ''cloudresourcemanager'' ''projects'' None
        (Some [JObj [(''projectId'', JStr ''proj-a'')]]) [],
      Construct ''compute'',
      Fetch ''compute'' ''firewalls'' (Some ''proj-a'') None [''denied''],
      Fetch ''compute'' ''networks'' (Some ''proj-a'')
        (Some [JObj [(''name'', JStr ''net1'')], JObj [(''name'', JStr ''net2'')]]) []]"
    using R by simp
  from C8_order_of_calls[OF R] obtain ps ws evs names where
    a: "calls s' = calls example_reporter @ Construct ''cloudresourcemanager''
        # Fetch ''cloudresourcemanager'' ''projects'' None (Some ps) ws # evs"
    and b: "map project_name_of (get_table (database example_reporter) ''projects'' @ ps)
        = map Inr names"
    and d: "map call_of evs = expected_calls (gcp_attributes example_config) names"
    by blast
  from a c have ps: "ps = [JObj [(''projectId'', JStr ''proj-a'')]]"
    and evs: "evs = drop 2 (calls s')"
    by (simp_all add: example_reporter_def)
  from b ps have "map Inr names = [Inr ''proj-a'' :: error + string]"
    by (simp add: get_table_def example_reporter_def project_name_of_def)
  then have names: "names = [''proj-a'']" by auto
  have e: "expected_calls (gcp_attributes example_config) [''proj-a''] =
     [Client ''compute'', Get ''compute'' ''firewalls'' (Some ''proj-a''),
      Get ''compute'' ''networks'' (Some ''proj-a'')]"
    by (simp add: expected_calls_def example_config_def)
  from d evs names e R show ?thesis by simp
qed

section \<open>The date in \<open>_setup\<close>\<close>

lemma create_dir_keeps [simp]:
  "clock (create_dir w p) = clock w" "fmt (create_dir w p) = fmt w"
  "ticks (create_dir w p) = ticks w" "probed (create_dir w p) = probed w"
  by (simp_all add: create_dir_def)





end
